theory Spec2Isabelle
  imports Complex_Main "HOL-Library.Sublist"
begin

section \<open>Strings, JSON values and texts\<close>

text \<open>
  A JavaScript string is modelled as the list of its Unicode code points.  Its
  \<open>length\<close> property counts UTF-16 code units, and the bytes that carried it on the
  wire are its UTF-8 encoding; the two measures differ outside ASCII.
\<close>

type_synonym jstring = "nat list"

definition js :: "string \<Rightarrow> jstring" where
  "js s = map of_char s"

definition utf16_units :: "nat \<Rightarrow> nat" where
  "utf16_units c = (if c < 0x10000 then 1 else 2)"

definition utf8_bytes :: "nat \<Rightarrow> nat" where
  "utf8_bytes c = (if c < 0x80 then 1 else if c < 0x800 then 2 else if c < 0x10000 then 3 else 4)"

definition js_length :: "jstring \<Rightarrow> nat" where
  "js_length s = sum_list (map utf16_units s)"

definition byte_size :: "jstring \<Rightarrow> nat" where
  "byte_size s = sum_list (map utf8_bytes s)"

text \<open>
  \<open>String.prototype.trim\<close> removes white space and line terminators from both ends:
  TAB, LF, VT, FF, CR, SP, NBSP, U+1680, U+2000..U+200A, U+2028, U+2029, U+202F,
  U+205F, U+3000 and U+FEFF.
\<close>

definition is_white_space :: "nat \<Rightarrow> bool" where
  "is_white_space c \<longleftrightarrow>
     (9 \<le> c \<and> c \<le> 13) \<or> c = 32 \<or> c = 160 \<or> c = 0x1680 \<or> (0x2000 \<le> c \<and> c \<le> 0x200A) \<or>
     c = 0x2028 \<or> c = 0x2029 \<or> c = 0x202F \<or> c = 0x205F \<or> c = 0x3000 \<or> c = 0xFEFF"

definition trim :: "jstring \<Rightarrow> jstring" where
  "trim s = rev (dropWhile is_white_space (rev (dropWhile is_white_space s)))"

text \<open>
  A value as \<open>JSON.parse\<close> returns it.  An object is the list of its own properties
  in enumeration order (the order in which spreading copies them and
  \<open>JSON.stringify\<close> writes them).  A finite number is the rational that the double
  denotes, so that \<open>0\<close> and \<open>-0\<close>, which \<open>JSON.stringify\<close> both writes as \<open>0\<close>, are
  one value; the server only ever tests a number for being zero.  A number literal
  beyond the range of the doubles, such as \<open>1e400\<close>, parses to \<open>Infinity\<close> or
  \<open>-Infinity\<close>.
\<close>

datatype json =
    JNull
  | JBool bool
  | JNum rat
  | JPosInf
  | JNegInf
  | JStr jstring
  | JArr "json list"
  | JObj "(jstring \<times> json) list"

text \<open>Error codes of the file system, and the exceptions of the runtime.\<close>

datatype errno = ENOENT | EACCES | EISDIR | EIO | ENOSPC

datatype js_error = SyntaxError | TypeError | URIError | SystemError errno

text \<open>
  \<open>JSON.parse\<close> and \<open>JSON.stringify\<close> belong to the runtime, not to the server.  A text
  is therefore identified with what \<open>JSON.parse\<close> makes of it: \<open>Json v\<close> is a text that
  parses to \<open>v\<close>, and \<open>Raw s\<close> is a text with the characters \<open>s\<close> that \<open>JSON.parse\<close>
  rejects; \<open>Raw []\<close> is the empty text.
\<close>

datatype content = Json json | Raw jstring

definition JSON_parse :: "content \<Rightarrow> js_error + json" where
  "JSON_parse t = (case t of Json v \<Rightarrow> Inr v | Raw s \<Rightarrow> Inl SyntaxError)"

text \<open>
  \<open>JSON.stringify\<close> on a value that \<open>JSON.parse\<close> returned writes a text that parses
  back to the same value, except that \<open>Infinity\<close> and \<open>-Infinity\<close> are written as
  \<open>null\<close>, at any depth.  \<open>serialized v\<close> is the value that the written text holds.
\<close>

fun serialized :: "json \<Rightarrow> json" where
  "serialized JPosInf = JNull"
| "serialized JNegInf = JNull"
| "serialized (JArr xs) = JArr (map serialized xs)"
| "serialized (JObj ps) = JObj (map (\<lambda>(k, v). (k, serialized v)) ps)"
| "serialized v = v"

definition JSON_stringify :: "json \<Rightarrow> content" where
  "JSON_stringify v = Json (serialized v)"

definition content_empty :: "content \<Rightarrow> bool" where
  "content_empty t = (case t of Raw s \<Rightarrow> s = [] | Json v \<Rightarrow> False)"

text \<open>JavaScript truthiness of a parsed value (the operand of \<open>!\<close> and of \<open>||\<close>).\<close>

fun truthy :: "json \<Rightarrow> bool" where
  "truthy JNull = False"
| "truthy (JBool b) = b"
| "truthy (JNum n) = (n \<noteq> 0)"
| "truthy JPosInf = True"
| "truthy JNegInf = True"
| "truthy (JStr s) = (s \<noteq> [])"
| "truthy (JArr xs) = True"
| "truthy (JObj ps) = True"

text \<open>
  \<open>data.name\<close>: reading a property of \<open>null\<close> throws a TypeError; a primitive or an
  array has no \<open>name\<close>; an object yields its own property or \<open>undefined\<close> (\<open>None\<close>).
\<close>

fun get_name :: "json \<Rightarrow> js_error + json option" where
  "get_name JNull = Inl TypeError"
| "get_name (JObj ps) = Inr (map_of ps (js ''name''))"
| "get_name v = Inr None"

text \<open>\<open>typeof x === 'string'\<close> on the result of a property read.\<close>

fun string_value :: "json option \<Rightarrow> jstring option" where
  "string_value (Some (JStr s)) = Some s"
| "string_value v = None"

section \<open>Paths (POSIX \<open>path\<close> module, absolute paths)\<close>

text \<open>
  \<open>__dirname\<close> is an absolute path, so every path the server builds is absolute; the
  functions below are the POSIX \<open>path\<close> functions on absolute paths.  Code point 47 is
  the slash and 46 the dot.
\<close>

fun split_at :: "nat \<Rightarrow> jstring \<Rightarrow> jstring list" where
  "split_at d [] = [[]]"
| "split_at d (c # cs) =
     (if c = d then [] # split_at d cs
      else (case split_at d cs of [] \<Rightarrow> [[c]] | x # xs \<Rightarrow> (c # x) # xs))"

text \<open>
  Dot segments: empty and \<open>.\<close> segments vanish, \<open>..\<close> removes the segment before it and
  is dropped at the root.  The first argument is the stack of segments kept so far.
\<close>

fun resolve_segments :: "jstring list \<Rightarrow> jstring list \<Rightarrow> jstring list" where
  "resolve_segments acc [] = rev acc"
| "resolve_segments acc (seg # segs) =
     (if seg = [] \<or> seg = js ''.'' then resolve_segments acc segs
      else if seg = js ''..'' then resolve_segments (drop 1 acc) segs
      else resolve_segments (seg # acc) segs)"

definition from_segments :: "jstring list \<Rightarrow> jstring" where
  "from_segments segs = (if segs = [] then js ''/'' else concat (map (\<lambda>seg. 47 # seg) segs))"

definition path_resolve :: "jstring \<Rightarrow> jstring" where
  "path_resolve p = from_segments (resolve_segments [] (split_at 47 p))"

definition path_normalize :: "jstring \<Rightarrow> jstring" where
  "path_normalize p =
     (let segs = resolve_segments [] (split_at 47 p)
      in if segs \<noteq> [] \<and> p \<noteq> [] \<and> last p = 47 then from_segments segs @ js ''/''
         else from_segments segs)"

definition path_join :: "jstring list \<Rightarrow> jstring" where
  "path_join parts =
     path_normalize (concat (map (\<lambda>part. 47 # part) (filter (\<lambda>part. part \<noteq> []) parts)))"

definition path_dirname :: "jstring \<Rightarrow> jstring" where
  "path_dirname p = from_segments (butlast (filter (\<lambda>seg. seg \<noteq> []) (split_at 47 p)))"

definition path_extname :: "jstring \<Rightarrow> jstring" where
  "path_extname p =
     (case rev (filter (\<lambda>seg. seg \<noteq> []) (split_at 47 p)) of
        [] \<Rightarrow> []
      | base # _ \<Rightarrow>
          (if 46 \<notin> set base then []
           else let n = length (takeWhile (\<lambda>c. c \<noteq> 46) (rev base));
                    stem = take (length base - n - 1) base
                in if stem = [] \<or> (stem = js ''.'' \<and> n = 0) then []
                   else drop (length base - n - 1) base))"

text \<open>
  \<open>toLowerCase\<close> on the extension.  Only the ASCII letters are mapped: no other letter
  lowers to a string of the extension table.
\<close>

definition to_lower :: "nat \<Rightarrow> nat" where
  "to_lower c = (if 65 \<le> c \<and> c \<le> 90 then c + 32 else c)"

section \<open>The server's constants\<close>

text \<open>
  \<open>__dirname\<close> is the path of an existing directory.  No such path holds the character
  U+0000, and the type of directory paths excludes it.
\<close>

typedef dirpath = "{s :: jstring. 0 \<notin> set s}"
  morphisms chars Abs_dirpath
  by (rule exI [of _ "[]"]) simp

setup_lifting type_definition_dirpath

record config =
  dirname :: dirpath

definition PUBLIC_DIR :: "config \<Rightarrow> jstring" where
  "PUBLIC_DIR cfg = path_join [chars (dirname cfg), js ''public'']"

definition RSVP_STORAGE :: "config \<Rightarrow> jstring" where
  "RSVP_STORAGE cfg = path_join [chars (dirname cfg), js ''data'', js ''rsvps.json'']"

definition getContentType :: "jstring \<Rightarrow> string" where
  "getContentType filePath =
     (let ext = map to_lower (path_extname filePath)
      in if ext = js ''.html'' then ''text/html; charset=utf-8''
         else if ext = js ''.css'' then ''text/css; charset=utf-8''
         else if ext = js ''.js'' then ''application/javascript; charset=utf-8''
         else if ext = js ''.json'' then ''application/json; charset=utf-8''
         else if ext = js ''.png'' then ''image/png''
         else if ext = js ''.jpg'' \<or> ext = js ''.jpeg'' then ''image/jpeg''
         else if ext = js ''.svg'' then ''image/svg+xml''
         else if ext = js ''.ico'' then ''image/x-icon''
         else ''application/octet-stream'')"

section \<open>The file system\<close>

text \<open>
  The file system gives, for every path, what reading it yields: an error code or the
  file's content.  \<open>mkdir_error\<close> and \<open>write_error\<close> are the errors that creating a
  directory and writing a file meet, if any.  A write that fails is taken to leave the
  file as it was.
\<close>

record filesystem =
  files :: "jstring \<Rightarrow> errno + content"
  mkdir_error :: "errno option"
  write_error :: "errno option"

text \<open>
  Every function of the \<open>fs\<close> module first checks its path argument and throws a
  TypeError, synchronously, when the path holds the character U+0000.
  \<open>fs.readFile\<close> reports every later error to its callback (the inner \<open>Inl\<close>); the
  synchronous functions throw it; \<open>fs.existsSync\<close> turns every error into \<open>false\<close>.
\<close>

definition fs_readFile :: "filesystem \<Rightarrow> jstring \<Rightarrow> js_error + (errno + content)" where
  "fs_readFile fs p = (if 0 \<in> set p then Inl TypeError else Inr (files fs p))"

definition fs_readFileSync :: "filesystem \<Rightarrow> jstring \<Rightarrow> js_error + content" where
  "fs_readFileSync fs p =
     (if 0 \<in> set p then Inl TypeError
      else (case files fs p of Inl e \<Rightarrow> Inl (SystemError e) | Inr t \<Rightarrow> Inr t))"

definition fs_existsSync :: "filesystem \<Rightarrow> jstring \<Rightarrow> bool" where
  "fs_existsSync fs p = (0 \<notin> set p \<and> files fs p \<noteq> Inl ENOENT)"

definition fs_mkdirSync :: "filesystem \<Rightarrow> jstring \<Rightarrow> js_error + filesystem" where
  "fs_mkdirSync fs p =
     (if 0 \<in> set p then Inl TypeError
      else (case mkdir_error fs of Some e \<Rightarrow> Inl (SystemError e) | None \<Rightarrow> Inr fs))"

definition fs_writeFileSync :: "filesystem \<Rightarrow> jstring \<Rightarrow> content \<Rightarrow> js_error + filesystem" where
  "fs_writeFileSync fs p t =
     (if 0 \<in> set p then Inl TypeError
      else (case write_error fs of
              Some e \<Rightarrow> Inl (SystemError e)
            | None \<Rightarrow> Inr (fs\<lparr>files := (files fs)(p := Inr t)\<rparr>)))"

section \<open>Requests, responses and the request handler\<close>

text \<open>
  A request as the handler sees it.  \<open>pathname\<close> is the value of
  \<open>decodeURIComponent(new URL(req.url, ...).pathname)\<close>, or the error either call
  throws (a \<open>%\<close> that does not start an escape, for example).  \<open>chunks\<close> are the
  decoded strings of the \<open>data\<close> events in order, and \<open>body_text\<close> is the accumulated
  body as \<open>JSON.parse\<close> sees it.
\<close>

record request =
  http_method :: string
  pathname :: "js_error + jstring"
  chunks :: "jstring list"
  body_text :: content

record response =
  status :: nat
  headers :: "(string \<times> string) list"
  res_body :: "content option"

text \<open>
  What the client observes: a response, a connection torn down by
  \<open>req.socket.destroy()\<close> with nothing sent, or nothing because an exception left the
  request listener uncaught (which ends the process).
\<close>

datatype outcome = Responded response | Destroyed | Uncaught js_error

definition json_headers :: "(string \<times> string) list" where
  "json_headers = [(''Content-Type'', ''application/json''), (''Access-Control-Allow-Origin'', ''*'')]"

definition json_response :: "nat \<Rightarrow> string \<Rightarrow> string \<Rightarrow> response" where
  "json_response code key msg =
     \<lparr>status = code, headers = json_headers,
      res_body = Some (JSON_stringify (JObj [(js key, JStr (js msg))]))\<rparr>"

definition plain_response :: "nat \<Rightarrow> string \<Rightarrow> response" where
  "plain_response code msg =
     \<lparr>status = code, headers = [(''Content-Type'', ''text/plain'')], res_body = Some (Raw (js msg))\<rparr>"

definition bad_request :: response where
  "bad_request = json_response 400 ''error'' ''Invalid submission: name is required''"

definition thank_you :: response where
  "thank_you = json_response 200 ''message'' ''Thank you for your RSVP!''"

definition internal_error :: response where
  "internal_error = json_response 500 ''error'' ''Internal server error''"

subsection \<open>\<open>POST /rsvp\<close>\<close>

text \<open>
  The \<open>data\<close> listener: the chunk is appended, and the socket is destroyed once
  \<open>body.length\<close> exceeds \<open>1e6\<close>.  Nothing is read from a destroyed socket and
  nothing is sent on it.  When the chunk that crosses the limit is the last of the
  body, the body is complete all the same and the \<open>end\<close> listener, which stays
  registered, still runs; otherwise the rest never arrives and \<open>end\<close> is not emitted.
\<close>

datatype reception = Intact jstring | Destroyed_at_end jstring | Destroyed_midway

fun on_data :: "jstring \<Rightarrow> jstring list \<Rightarrow> reception" where
  "on_data body [] = Intact body"
| "on_data body (chunk # rest) =
     (let body' = body @ chunk
      in if js_length body' > 1000000
         then (if rest = [] then Destroyed_at_end body' else Destroyed_midway)
         else on_data body' rest)"

text \<open>
  The validation test \<open>!data || typeof data.name !== 'string' || data.name.trim() === ''\<close>,
  evaluated left to right.
\<close>

definition invalid_submission :: "json \<Rightarrow> js_error + bool" where
  "invalid_submission data =
     (if \<not> truthy data then Inr True
      else (case get_name data of
              Inl err \<Rightarrow> Inl err
            | Inr v \<Rightarrow> (case string_value v of
                          None \<Rightarrow> Inr True
                        | Some s \<Rightarrow> Inr (trim s = []))))"

text \<open>
  The inner \<open>try\<close>: the stored array, or \<open>[]\<close> when the file is missing, cannot be
  read, does not parse, or parses to a falsy value.
\<close>

definition load_rsvps :: "config \<Rightarrow> filesystem \<Rightarrow> json" where
  "load_rsvps cfg fs =
     (if fs_existsSync fs (RSVP_STORAGE cfg) then
        (case fs_readFileSync fs (RSVP_STORAGE cfg) of
           Inl err \<Rightarrow> JArr []
         | Inr fileContent \<Rightarrow>
             (case JSON_parse fileContent of
                Inl err \<Rightarrow> JArr []
              | Inr v \<Rightarrow> if truthy v then v else JArr []))
      else JArr [])"

text \<open>
  \<open>{ ...data, createdAt: ... }\<close>: the own properties of \<open>data\<close> in order, then
  \<open>createdAt\<close> assigned, in place when \<open>data\<close> already has the key.  Only objects
  pass the validation, so the spread of other values is not modelled.
\<close>

fun own_properties :: "json \<Rightarrow> (jstring \<times> json) list" where
  "own_properties (JObj ps) = ps"
| "own_properties v = []"

fun set_property :: "jstring \<Rightarrow> json \<Rightarrow> (jstring \<times> json) list \<Rightarrow> (jstring \<times> json) list" where
  "set_property k v [] = [(k, v)]"
| "set_property k v ((k', v') # ps) =
     (if k' = k then (k, v) # ps else (k', v') # set_property k v ps)"

definition make_record :: "json \<Rightarrow> jstring \<Rightarrow> json" where
  "make_record data now = JObj (set_property (js ''createdAt'') (JStr now) (own_properties data))"

text \<open>\<open>rsvps.push(record)\<close>: only an array has \<open>push\<close>; on anything else the call throws.\<close>

fun array_push :: "json \<Rightarrow> json \<Rightarrow> js_error + json" where
  "array_push (JArr xs) r = Inr (JArr (xs @ [r]))"
| "array_push v r = Inl TypeError"

text \<open>
  The \<open>end\<close> listener.  \<open>now\<close> is the reading of the clock,
  \<open>new Date().toISOString()\<close>.  Every exception inside the outer \<open>try\<close> ends in the
  500 response.
\<close>

definition on_end :: "config \<Rightarrow> jstring \<Rightarrow> filesystem \<Rightarrow> content \<Rightarrow> response \<times> filesystem" where
  "on_end cfg now fs body_txt =
     (case JSON_parse body_txt of
        Inl err \<Rightarrow> (internal_error, fs)
      | Inr data \<Rightarrow>
          (case invalid_submission data of
             Inl err \<Rightarrow> (internal_error, fs)
           | Inr invalid \<Rightarrow>
               if invalid then (bad_request, fs)
               else
                 (case array_push (load_rsvps cfg fs) (make_record data now) of
                    Inl err \<Rightarrow> (internal_error, fs)
                  | Inr rsvps \<Rightarrow>
                      (case fs_mkdirSync fs (path_dirname (RSVP_STORAGE cfg)) of
                         Inl err \<Rightarrow> (internal_error, fs)
                       | Inr fs1 \<Rightarrow>
                           (case fs_writeFileSync fs1 (RSVP_STORAGE cfg) (JSON_stringify rsvps) of
                              Inl err \<Rightarrow> (internal_error, fs1)
                            | Inr fs2 \<Rightarrow> (thank_you, fs2))))))"

text \<open>
  The handler of \<open>POST /rsvp\<close>.  On an intact socket the response of the \<open>end\<close>
  listener reaches the client.  On a destroyed socket it does not, but what the
  listener wrote to the store remains.
\<close>

definition submit_handler :: "config \<Rightarrow> jstring \<Rightarrow> filesystem \<Rightarrow> request \<Rightarrow> outcome \<times> filesystem" where
  "submit_handler cfg now fs req =
     (case on_data [] (chunks req) of
        Intact received \<Rightarrow>
          (let (res, fs') = on_end cfg now fs (body_text req) in (Responded res, fs'))
      | Destroyed_at_end received \<Rightarrow>
          (let (res, fs') = on_end cfg now fs (body_text req) in (Destroyed, fs'))
      | Destroyed_midway \<Rightarrow> (Destroyed, fs))"

subsection \<open>\<open>GET /rsvps\<close>\<close>

text \<open>
  An exception that \<open>fs.readFile\<close> throws synchronously is outside the callback and is
  caught by nothing.
\<close>

definition list_handler :: "config \<Rightarrow> filesystem \<Rightarrow> outcome" where
  "list_handler cfg fs =
     (case fs_readFile fs (RSVP_STORAGE cfg) of
        Inl thrown \<Rightarrow> Uncaught thrown
      | Inr (Inl err) \<Rightarrow>
          if err = ENOENT
          then Responded \<lparr>status = 200, headers = json_headers, res_body = Some (Json (JArr []))\<rparr>
          else Responded (json_response 500 ''error'' ''Unable to read RSVPs'')
      | Inr (Inr fileData) \<Rightarrow>
          Responded \<lparr>status = 200, headers = json_headers,
            res_body = Some (if content_empty fileData then Json (JArr []) else fileData)\<rparr>)"

subsection \<open>\<open>OPTIONS /rsvp\<close>\<close>

definition preflight_response :: response where
  "preflight_response =
     \<lparr>status = 204,
      headers = [(''Access-Control-Allow-Origin'', ''*''),
                 (''Access-Control-Allow-Methods'', ''POST, OPTIONS''),
                 (''Access-Control-Allow-Headers'', ''Content-Type'')],
      res_body = None\<rparr>"

subsection \<open>Static files\<close>

text \<open>The path that the static handler reads: \<open>requestedPath\<close>, \<open>filePath\<close>, \<open>resolvedPath\<close>.\<close>

definition resolvedPath :: "config \<Rightarrow> jstring \<Rightarrow> jstring" where
  "resolvedPath cfg path =
     (let requestedPath = (if path = js ''/'' then js ''/index.html'' else path);
          filePath = path_join [PUBLIC_DIR cfg, requestedPath]
      in path_resolve filePath)"

definition static_handler :: "config \<Rightarrow> filesystem \<Rightarrow> jstring \<Rightarrow> outcome" where
  "static_handler cfg fs path =
     (if \<not> prefix (PUBLIC_DIR cfg) (resolvedPath cfg path)
      then Responded (plain_response 403 ''Forbidden'')
      else (case fs_readFile fs (resolvedPath cfg path) of
              Inl thrown \<Rightarrow> Uncaught thrown
            | Inr (Inl err) \<Rightarrow> Responded (plain_response 404 ''Not Found'')
            | Inr (Inr data) \<Rightarrow>
                Responded \<lparr>status = 200,
                  headers = [(''Content-Type'', getContentType (resolvedPath cfg path))],
                  res_body = Some data\<rparr>))"

subsection \<open>The router\<close>

definition handle_request :: "config \<Rightarrow> jstring \<Rightarrow> filesystem \<Rightarrow> request \<Rightarrow> outcome \<times> filesystem" where
  "handle_request cfg now fs req =
     (case pathname req of
        Inl err \<Rightarrow> (Uncaught err, fs)
      | Inr path \<Rightarrow>
          if http_method req = ''POST'' \<and> path = js ''/rsvp'' then submit_handler cfg now fs req
          else if http_method req = ''GET'' \<and> path = js ''/rsvps'' then (list_handler cfg fs, fs)
          else if http_method req = ''OPTIONS'' \<and> path = js ''/rsvp'' then (Responded preflight_response, fs)
          else if http_method req = ''GET'' then (static_handler cfg fs path, fs)
          else (Responded (plain_response 405 ''Method Not Allowed''), fs))"

section \<open>Notions of the specification and sample inputs\<close>

text \<open>
  The specification's condition on a submission: the parsed value is an object with a
  \<open>name\<close> field that is a string and is not empty after trimming.
\<close>

definition valid_submission :: "json \<Rightarrow> bool" where
  "valid_submission data =
     (case data of
        JObj ps \<Rightarrow> (case map_of ps (js ''name'') of Some (JStr s) \<Rightarrow> trim s \<noteq> [] | _ \<Rightarrow> False)
      | _ \<Rightarrow> False)"

text \<open>A deployment under \<open>/srv/app\<close> with no file at all, and a clock reading.\<close>

lift_definition srv_app :: dirpath is "js ''/srv/app''"
  by (simp add: js_def)

definition app :: config where
  "app = \<lparr>dirname = srv_app\<rparr>"

definition fresh_fs :: filesystem where
  "fresh_fs = \<lparr>files = (\<lambda>p. Inl ENOENT), mkdir_error = None, write_error = None\<rparr>"

definition noon :: jstring where
  "noon = js ''2025-11-22T12:00:00.000Z''"

definition post_rsvp :: "jstring list \<Rightarrow> content \<Rightarrow> request" where
  "post_rsvp cs t = \<lparr>http_method = ''POST'', pathname = Inr (js ''/rsvp''), chunks = cs, body_text = t\<rparr>"

definition get_path :: "jstring \<Rightarrow> request" where
  "get_path p = \<lparr>http_method = ''GET'', pathname = Inr p, chunks = [], body_text = Raw []\<rparr>"

text \<open>Sample submissions, each with the characters of its body, and a store holding a given text.\<close>

definition ada :: "(jstring \<times> json) list" where
  "ada = [(js ''name'', JStr (js ''Ada'')), (js ''guests'', JNum 2)]"

definition ada_chars :: jstring where
  \<open>ada_chars = js ''{"name":"Ada","guests":2}''\<close>

definition dated :: "(jstring \<times> json) list" where
  "dated = [(js ''createdAt'', JStr (js ''1999'')), (js ''name'', JStr (js ''Ada''))]"

definition dated_chars :: jstring where
  \<open>dated_chars = js ''{"createdAt":"1999","name":"Ada"}''\<close>

definition blank :: "(jstring \<times> json) list" where
  "blank = [(js ''name'', JStr (js ''  ''))]"

definition blank_chars :: jstring where
  \<open>blank_chars = js ''{"name":"  "}''\<close>

definition store_with :: "config \<Rightarrow> content \<Rightarrow> filesystem" where
  "store_with cfg t = fresh_fs\<lparr>files := (files fresh_fs)(RSVP_STORAGE cfg := Inr t)\<rparr>"

text \<open>
  A path lies within a directory when it is the directory itself or continues it after
  a slash.
\<close>

definition within_root :: "jstring \<Rightarrow> jstring \<Rightarrow> bool" where
  "within_root dir p \<longleftrightarrow> p = dir \<or> prefix (dir @ js ''/'') p"



text \<open>The invariant of the Record Store: the file is absent or holds a JSON array.\<close>

definition valid_store :: "config \<Rightarrow> filesystem \<Rightarrow> bool" where
  "valid_store cfg fs =
     (case files fs (RSVP_STORAGE cfg) of
        Inl e \<Rightarrow> e = ENOENT
      | Inr t \<Rightarrow> (case JSON_parse t of Inr (JArr rs) \<Rightarrow> True | _ \<Rightarrow> False))"

text \<open>
  Requests handled one after the other, each with the clock reading at its arrival;
  every request sees the file system its predecessor left.
\<close>

fun handle_all :: "config \<Rightarrow> filesystem \<Rightarrow> (jstring \<times> request) list \<Rightarrow> outcome list \<times> filesystem" where
  "handle_all cfg fs [] = ([], fs)"
| "handle_all cfg fs ((now, req) # rest) =
     (let (out, fs1) = handle_request cfg now fs req;
          (outs, fs2) = handle_all cfg fs1 rest
      in (out # outs, fs2))"

text \<open>
  A valid submission: a \<open>POST /rsvp\<close> within the size limit whose body parses to a
  valid value; and the record that the store holds for it once written: the submitted
  fields with \<open>createdAt\<close>, as \<open>JSON.stringify\<close> writes them.
\<close>

definition valid_post :: "request \<Rightarrow> bool" where
  "valid_post req \<longleftrightarrow>
     http_method req = ''POST'' \<and> pathname req = Inr (js ''/rsvp'') \<and>
     js_length (concat (chunks req)) \<le> 1000000 \<and>
     (case body_text req of Json data \<Rightarrow> valid_submission data | Raw s \<Rightarrow> False)"

definition record_of :: "jstring \<times> request \<Rightarrow> json" where
  "record_of sub =
     (case body_text (snd sub) of
        Json data \<Rightarrow> serialized (make_record data (fst sub))
      | Raw s \<Rightarrow> JNull)"

text \<open>A directory beside the asset root whose name starts with the root's name.\<close>

definition sibling_fs :: filesystem where
  "sibling_fs =
     fresh_fs\<lparr>files := (files fresh_fs)(js ''/srv/app/public-old/secret.txt'' := Inr (Raw (js ''secret'')))\<rparr>"



definition get_rsvps :: request where
  "get_rsvps = get_path (js ''/rsvps'')"

definition bob :: "(jstring \<times> json) list" where
  "bob = [(js ''name'', JStr (js ''Bob'')), (js ''attending'', JStr (js ''yes''))]"

definition bob_chars :: jstring where
  \<open>bob_chars = js ''{"name":"Bob","attending":"yes"}''\<close>

definition evening :: jstring where
  "evening = js ''2025-11-22T18:30:00.000Z''"

definition two_posts :: "(jstring \<times> request) list" where
  "two_posts = [(noon, post_rsvp [ada_chars] (Json (JObj ada))),
                (evening, post_rsvp [bob_chars] (Json (JObj bob)))]"

text \<open>
  Two bodies that arrive in chunks of 10,000 characters: 101 chunks of the letter \<open>a\<close>,
  and 40 chunks of the euro sign (U+20AC, three bytes in UTF-8, one UTF-16 code unit).
\<close>

definition letters_post :: request where
  "letters_post = post_rsvp (replicate 101 (replicate 10000 97)) (Raw (replicate 1010000 97))"

definition euros_post :: request where
  "euros_post = post_rsvp (replicate 40 (replicate 10000 8364)) (Raw (replicate 400000 8364))"

text \<open>
  The store as a run of submissions finds and leaves it: writes are accepted, and the
  file is absent (no record yet) or holds the array of the records \<open>rs\<close>, which are
  values as \<open>JSON.stringify\<close> writes them.
\<close>

definition store_state :: "config \<Rightarrow> filesystem \<Rightarrow> json list \<Rightarrow> bool" where
  "store_state cfg fs rs \<longleftrightarrow>
     mkdir_error fs = None \<and> write_error fs = None \<and> map serialized rs = rs \<and>
     ((files fs (RSVP_STORAGE cfg) = Inl ENOENT \<and> rs = []) \<or>
      files fs (RSVP_STORAGE cfg) = Inr (Json (JArr rs)))"

text \<open>
  The fields of an object as \<open>JSON.stringify\<close> writes them, and the values it writes
  unchanged: those that hold no \<open>Infinity\<close>.
\<close>

definition stored_fields :: "(jstring \<times> json) list \<Rightarrow> (jstring \<times> json) list" where
  "stored_fields ps = map (\<lambda>(k, v). (k, serialized v)) ps"

fun finite_json :: "json \<Rightarrow> bool" where
  "finite_json JPosInf = False"
| "finite_json JNegInf = False"
| "finite_json (JArr xs) = list_all finite_json xs"
| "finite_json (JObj ps) = list_all (\<lambda>(k, v). finite_json v) ps"
| "finite_json v = True"

text \<open>
  Further sample requests: an empty object followed by 1,010,000 spaces, in chunks; a
  submission whose \<open>guests\<close> is the literal \<open>1e400\<close>; a request whose path holds a
  \<open>%\<close> that starts no escape (\<open>GET /%\<close>); and a request for \<open>/%00\<close>, whose decoded
  path holds U+0000.
\<close>

definition padded_post :: request where
  "padded_post = post_rsvp (js ''{}'' # replicate 101 (replicate 10000 32)) (Json (JObj []))"

definition huge :: "(jstring \<times> json) list" where
  "huge = [(js ''name'', JStr (js ''Ada'')), (js ''guests'', JPosInf)]"

definition huge_chars :: jstring where
  \<open>huge_chars = js ''{"name":"Ada","guests":1e400}''\<close>



section \<open>Serialization and paths\<close>

lemma serialized_idem: "serialized (serialized v) = serialized v"
  by (induction v) (auto simp: case_prod_beta)

lemma serialized_finite: "finite_json v \<Longrightarrow> serialized v = v"
proof (induction v)
  case (JArr xs)
  then show ?case by (auto simp: list_all_iff intro!: map_idI)
next
  case (JObj ps)
  then show ?case by (force simp: list_all_iff intro!: map_idI)
qed simp_all

lemma split_at_chars: "\<forall>seg \<in> set (split_at d p). set seg \<subseteq> set p"
proof (induction p)
  case Nil
  then show ?case by simp
next
  case (Cons c cs)
  show ?case
  proof (cases "c = d")
    case True
    with Cons.IH show ?thesis by auto
  next
    case False
    show ?thesis
    proof (cases "split_at d cs")
      case Nil
      with False show ?thesis by simp
    next
      case (Cons x xs)
      with Cons.IH have "set x \<subseteq> set cs" and "\<forall>seg \<in> set xs. set seg \<subseteq> set cs"
        by simp_all
      with False Cons show ?thesis by auto
    qed
  qed
qed

lemma resolve_segments_subset: "set (resolve_segments acc segs) \<subseteq> set acc \<union> set segs"
proof (induction segs arbitrary: acc)
  case Nil
  then show ?case by simp
next
  case (Cons seg segs)
  have "set (drop 1 acc) \<subseteq> set acc" by (rule set_drop_subset)
  with Cons.IH [of acc] Cons.IH [of "drop 1 acc"] Cons.IH [of "seg # acc"]
  show ?case by (auto split: if_splits)
qed

lemma from_segments_chars: "set (from_segments segs) \<subseteq> insert 47 (\<Union>seg \<in> set segs. set seg)"
  by (auto simp: from_segments_def js_def)

lemma resolved_chars:
  "set (from_segments (resolve_segments [] (split_at 47 p))) \<subseteq> insert 47 (set p)"
proof -
  have "(\<Union>seg \<in> set (resolve_segments [] (split_at 47 p)). set seg) \<subseteq> set p"
    using resolve_segments_subset [of "[]" "split_at 47 p"] split_at_chars [of 47 p]
    by auto
  with from_segments_chars [of "resolve_segments [] (split_at 47 p)"] show ?thesis
    by auto
qed

lemma path_resolve_chars: "set (path_resolve p) \<subseteq> insert 47 (set p)"
  unfolding path_resolve_def by (rule resolved_chars)

lemma path_normalize_chars: "set (path_normalize p) \<subseteq> insert 47 (set p)"
  using resolved_chars [of p] by (auto simp: path_normalize_def Let_def js_def)

lemma path_join_chars: "set (path_join parts) \<subseteq> insert 47 (\<Union>part \<in> set parts. set part)"
proof -
  have "set (concat (map (\<lambda>part. 47 # part) (filter (\<lambda>part. part \<noteq> []) parts)))
      \<subseteq> insert 47 (\<Union>part \<in> set parts. set part)"
    by auto
  with path_normalize_chars [of "concat (map (\<lambda>part. 47 # part) (filter (\<lambda>part. part \<noteq> []) parts))"]
  show ?thesis unfolding path_join_def by blast
qed

lemma path_dirname_chars: "set (path_dirname p) \<subseteq> insert 47 (set p)"
proof -
  have "(\<Union>seg \<in> set (butlast (filter (\<lambda>seg. seg \<noteq> []) (split_at 47 p))). set seg) \<subseteq> set p"
    using split_at_chars [of 47 p] by (auto dest!: in_set_butlastD)
  with from_segments_chars [of "butlast (filter (\<lambda>seg. seg \<noteq> []) (split_at 47 p))"]
  show ?thesis unfolding path_dirname_def by auto
qed

lemma chars_no_nul: "0 \<notin> set (chars d)"
  using chars [of d] by simp

lemma RSVP_STORAGE_no_nul: "0 \<notin> set (RSVP_STORAGE cfg)"
proof -
  have "0 \<notin> set (js ''data'')" and "0 \<notin> set (js ''rsvps.json'')"
    by (simp_all add: js_def)
  with chars_no_nul [of "dirname cfg"]
    path_join_chars [of "[chars (dirname cfg), js ''data'', js ''rsvps.json'']"]
  show ?thesis unfolding RSVP_STORAGE_def by auto
qed

lemma PUBLIC_DIR_no_nul: "0 \<notin> set (PUBLIC_DIR cfg)"
proof -
  have "0 \<notin> set (js ''public'')"
    by (simp add: js_def)
  with chars_no_nul [of "dirname cfg"] path_join_chars [of "[chars (dirname cfg), js ''public'']"]
  show ?thesis unfolding PUBLIC_DIR_def by auto
qed

lemma store_dir_no_nul: "0 \<notin> set (path_dirname (RSVP_STORAGE cfg))"
  using path_dirname_chars [of "RSVP_STORAGE cfg"] RSVP_STORAGE_no_nul [of cfg] by auto

section \<open>Receiving the body\<close>

lemma js_length_append: "js_length (a @ b) = js_length a + js_length b"
  by (simp add: js_length_def)

lemma on_data_within:
  "js_length (body @ concat cs) \<le> 1000000 \<Longrightarrow> on_data body cs = Intact (body @ concat cs)"
proof (induction cs arbitrary: body)
  case Nil
  then show ?case by simp
next
  case (Cons c cs)
  from Cons.prems have "js_length (body @ c) \<le> 1000000"
    by (simp add: js_length_append)
  with Cons.IH [of "body @ c"] Cons.prems show ?case
    by (simp add: Let_def)
qed

lemma on_data_over:
  "js_length (body @ concat cs) > 1000000 \<Longrightarrow> js_length body \<le> 1000000 \<Longrightarrow>
   on_data body cs = Destroyed_midway \<or> on_data body cs = Destroyed_at_end (body @ concat cs)"
proof (induction cs arbitrary: body)
  case Nil
  then show ?case by simp
next
  case (Cons c cs)
  show ?case
  proof (cases "js_length (body @ c) \<le> 1000000")
    case True
    with Cons.IH [of "body @ c"] Cons.prems show ?thesis by (simp add: Let_def)
  next
    case False
    then show ?thesis by (simp add: Let_def)
  qed
qed

lemma on_data_start:
  "js_length (concat cs) \<le> 1000000 \<Longrightarrow> on_data [] cs = Intact (concat cs)"
  using on_data_within [of "[]" cs] by simp

lemma on_data_start_over:
  "js_length (concat cs) > 1000000 \<Longrightarrow>
   on_data [] cs = Destroyed_midway \<or> on_data [] cs = Destroyed_at_end (concat cs)"
  using on_data_over [of "[]" cs] by (simp add: js_length_def)

lemma submit_handler_within:
  "js_length (concat (chunks req)) \<le> 1000000 \<Longrightarrow>
   submit_handler cfg now fs req =
     (Responded (fst (on_end cfg now fs (body_text req))), snd (on_end cfg now fs (body_text req)))"
  by (simp add: submit_handler_def on_data_start case_prod_beta)

lemma submit_handler_over:
  assumes "js_length (concat (chunks req)) > 1000000"
  shows "fst (submit_handler cfg now fs req) = Destroyed \<and>
         (snd (submit_handler cfg now fs req) = fs \<or>
          snd (submit_handler cfg now fs req) = snd (on_end cfg now fs (body_text req)))"
  using on_data_start_over [OF assms]
  by (auto simp: submit_handler_def case_prod_beta)

lemma of_char_below: "(of_char c :: nat) < 256"
proof -
  have "(of_char c :: nat) mod 256 < 256" by simp
  then show ?thesis by (simp only: of_char_mod_256)
qed

lemma utf16_units_of_char: "utf16_units (of_char c) = 1"
proof -
  have "(of_char c :: nat) < 65536"
    using of_char_below [of c] by linarith
  then show ?thesis
    unfolding utf16_units_def by (simp only: if_True)
qed

lemma js_length_literal: "js_length (js s) = length s"
  by (induction s) (simp_all add: js_length_def js_def utf16_units_of_char)

section \<open>Validation\<close>

lemma invalid_submission_eq: "invalid_submission data = Inr (\<not> valid_submission data)"
  by (cases data)
    (auto simp: invalid_submission_def valid_submission_def split: option.splits json.splits)

section \<open>Malformed bodies\<close>

text \<open>
  C3 (as amended).  A \<open>POST /rsvp\<close> whose body was received within the size limit and
  does not parse as JSON is answered by the handler's catch block: status 500 with the
  JSON body \<open>{error: "Internal server error"}\<close>, and the file system is left as it was.
  The status is not 400.
\<close>

theorem malformed_body_internal_error:
  assumes "http_method req = ''POST''" and "pathname req = Inr (js ''/rsvp'')"
    and "js_length (concat (chunks req)) \<le> 1000000"
    and "JSON_parse (body_text req) = Inl err"
  shows "handle_request cfg now fs req = (Responded internal_error, fs) \<and>
         status internal_error = 500 \<and>
         res_body internal_error =
           Some (Json (JObj [(js ''error'', JStr (js ''Internal server error''))]))"
  using assms
  by (simp add: handle_request_def submit_handler_within on_end_def
      internal_error_def json_response_def JSON_stringify_def)

theorem malformed_body_internal_error_witness:
  "handle_request app noon fresh_fs (post_rsvp [js ''{'', js ''name''] (Raw (js ''{name'')))
     = (Responded internal_error, fresh_fs) \<and>
   status internal_error = 500 \<and>
   res_body internal_error =
     Some (Json (JObj [(js ''error'', JStr (js ''Internal server error''))]))"
  by (rule malformed_body_internal_error [where err = SyntaxError])
    (simp_all add: post_rsvp_def JSON_parse_def js_length_append js_length_literal)

text \<open>The body \<open>{\<close> is not JSON; the server answers 500, not 400.\<close>

theorem malformed_body_counterexample:
  "fst (handle_request app noon fresh_fs (post_rsvp [js ''{''] (Raw (js ''{''))))
     = Responded internal_error \<and>
   status internal_error \<noteq> 400"
  by (simp add: handle_request_def submit_handler_within on_end_def JSON_parse_def
      js_length_literal internal_error_def json_response_def post_rsvp_def)

section \<open>Sample inputs evaluated\<close>

lemma RSVP_STORAGE_app: "RSVP_STORAGE app = js ''/srv/app/data/rsvps.json''"
  by (simp add: RSVP_STORAGE_def app_def srv_app.rep_eq path_join_def path_normalize_def
      from_segments_def js_def)

lemma PUBLIC_DIR_app: "PUBLIC_DIR app = js ''/srv/app/public''"
  by (simp add: PUBLIC_DIR_def app_def srv_app.rep_eq path_join_def path_normalize_def
      from_segments_def js_def)

lemma load_rsvps_fresh: "load_rsvps cfg fresh_fs = JArr []"
  by (simp add: load_rsvps_def fs_existsSync_def fresh_fs_def)

lemma trim_Ada: "trim (js ''Ada'') = js ''Ada''"
  by (simp add: trim_def js_def is_white_space_def)

lemma trim_blank: "trim (js ''  '') = []"
  by (simp add: trim_def js_def is_white_space_def)

section \<open>Accepted submissions\<close>

lemma map_of_set_property: "map_of (set_property k v ps) = (map_of ps)(k \<mapsto> v)"
  by (induction ps) auto

lemma set_property_fresh: "k \<notin> fst ` set ps \<Longrightarrow> set_property k v ps = ps @ [(k, v)]"
  by (induction ps) auto

lemma set_property_first:
  "k \<notin> fst ` set before \<Longrightarrow>
   set_property k v (before @ (k, v0) # after) = before @ (k, v) # after"
  by (induction before) auto

lemma stored_fields_finite:
  "list_all (\<lambda>(k, v). finite_json v) ps \<Longrightarrow> stored_fields ps = ps"
  unfolding stored_fields_def
  by (rule map_idI) (auto simp: list_all_iff serialized_finite)

lemma valid_submission_iff:
  "valid_submission data \<longleftrightarrow>
     (\<exists>ps s. data = JObj ps \<and> map_of ps (js ''name'') = Some (JStr s) \<and> trim s \<noteq> [])"
  by (auto simp: valid_submission_def split: json.splits option.splits)

lemma on_end_valid:
  assumes "JSON_parse t = Inr data" and "valid_submission data"
    and "load_rsvps cfg fs = JArr old"
    and "mkdir_error fs = None" and "write_error fs = None"
  shows "on_end cfg now fs t =
     (thank_you,
      fs\<lparr>files := (files fs)(RSVP_STORAGE cfg :=
        Inr (Json (JArr (map serialized old @ [serialized (make_record data now)]))))\<rparr>)"
  using assms
  by (simp add: on_end_def invalid_submission_eq fs_mkdirSync_def fs_writeFileSync_def
      JSON_stringify_def RSVP_STORAGE_no_nul store_dir_no_nul)

text \<open>
  C1 (as amended).  A \<open>POST /rsvp\<close> whose body was received within the size limit and
  parses to an object with a string \<open>name\<close> that is not blank, on a store that loads
  as an array \<open>old\<close> and a file system that accepts the write, is answered 200 with
  \<open>{message: "Thank you for your RSVP!"}\<close>, and the store then holds the records of
  \<open>old\<close> followed by one record \<open>r\<close>.  When the client sent no \<open>createdAt\<close>, \<open>r\<close> is
  the submitted fields in order followed by \<open>createdAt\<close> with the server's clock
  reading.  When it sent one, \<open>r\<close> is the submitted fields in order with the value of
  \<open>createdAt\<close> replaced, in place, by the clock reading.  The fields are stored as
  \<open>JSON.stringify\<close> writes them: verbatim when no value holds a number beyond the
  range of the doubles, and with \<open>null\<close> for such a number.
\<close>

theorem valid_submission_stored:
  assumes "http_method req = ''POST''" and "pathname req = Inr (js ''/rsvp'')"
    and "js_length (concat (chunks req)) \<le> 1000000"
    and "JSON_parse (body_text req) = Inr (JObj ps)"
    and "map_of ps (js ''name'') = Some (JStr s)" and "trim s \<noteq> []"
    and "load_rsvps cfg fs = JArr old"
    and "mkdir_error fs = None" and "write_error fs = None"
  shows "\<exists>r. handle_request cfg now fs req =
           (Responded thank_you,
            fs\<lparr>files := (files fs)(RSVP_STORAGE cfg :=
                   Inr (Json (JArr (map serialized old @ [JObj r]))))\<rparr>) \<and>
         status thank_you = 200 \<and>
         res_body thank_you =
           Some (Json (JObj [(js ''message'', JStr (js ''Thank you for your RSVP!''))])) \<and>
         (js ''createdAt'' \<notin> fst ` set ps \<longrightarrow>
            r = stored_fields ps @ [(js ''createdAt'', JStr now)]) \<and>
         (\<forall>before v after.
            ps = before @ (js ''createdAt'', v) # after \<and> js ''createdAt'' \<notin> fst ` set before \<longrightarrow>
            r = stored_fields before @ (js ''createdAt'', JStr now) # stored_fields after) \<and>
         (list_all (\<lambda>(k, v). finite_json v) ps \<longrightarrow> stored_fields ps = ps)"
proof -
  let ?r = "stored_fields (set_property (js ''createdAt'') (JStr now) ps)"
  have valid: "valid_submission (JObj ps)"
    using assms(5,6) by (simp add: valid_submission_def)
  have "on_end cfg now fs (body_text req) =
     (thank_you,
      fs\<lparr>files := (files fs)(RSVP_STORAGE cfg :=
        Inr (Json (JArr (map serialized old @ [serialized (make_record (JObj ps) now)]))))\<rparr>)"
    using assms(4) valid assms(7,8,9) by (rule on_end_valid)
  then have run: "handle_request cfg now fs req =
           (Responded thank_you,
            fs\<lparr>files := (files fs)(RSVP_STORAGE cfg :=
                   Inr (Json (JArr (map serialized old @ [JObj ?r]))))\<rparr>)"
    using assms(1,2,3)
    by (simp add: handle_request_def submit_handler_within make_record_def stored_fields_def)
  have reply: "status thank_you = 200 \<and>
         res_body thank_you =
           Some (Json (JObj [(js ''message'', JStr (js ''Thank you for your RSVP!''))]))"
    by (simp add: thank_you_def json_response_def JSON_stringify_def)
  have absent: "js ''createdAt'' \<notin> fst ` set ps \<longrightarrow>
            ?r = stored_fields ps @ [(js ''createdAt'', JStr now)]"
    by (simp add: set_property_fresh stored_fields_def)
  have present: "?r = stored_fields before @ (js ''createdAt'', JStr now) # stored_fields after"
    if "ps = before @ (js ''createdAt'', v) # after \<and> js ''createdAt'' \<notin> fst ` set before"
    for before v after
    using that by (simp add: set_property_first stored_fields_def)
  have verbatim: "list_all (\<lambda>(k, v). finite_json v) ps \<longrightarrow> stored_fields ps = ps"
    by (simp add: stored_fields_finite)
  from run reply absent present verbatim show ?thesis by blast
qed

theorem valid_submission_stored_witness:
  "handle_request app noon fresh_fs (post_rsvp [ada_chars] (Json (JObj ada))) =
     (Responded thank_you,
      fresh_fs\<lparr>files := (files fresh_fs)(RSVP_STORAGE app :=
        Inr (Json (JArr [JObj (ada @ [(js ''createdAt'', JStr noon)])])))\<rparr>)"
proof -
  have "\<exists>r. handle_request app noon fresh_fs (post_rsvp [ada_chars] (Json (JObj ada))) =
           (Responded thank_you,
            fresh_fs\<lparr>files := (files fresh_fs)(RSVP_STORAGE app :=
                   Inr (Json (JArr (map serialized [] @ [JObj r]))))\<rparr>) \<and>
         status thank_you = 200 \<and>
         res_body thank_you =
           Some (Json (JObj [(js ''message'', JStr (js ''Thank you for your RSVP!''))])) \<and>
         (js ''createdAt'' \<notin> fst ` set ada \<longrightarrow>
            r = stored_fields ada @ [(js ''createdAt'', JStr noon)]) \<and>
         (\<forall>before v after.
            ada = before @ (js ''createdAt'', v) # after \<and> js ''createdAt'' \<notin> fst ` set before \<longrightarrow>
            r = stored_fields before @ (js ''createdAt'', JStr noon) # stored_fields after) \<and>
         (list_all (\<lambda>(k, v). finite_json v) ada \<longrightarrow> stored_fields ada = ada)"
  proof (rule valid_submission_stored [where s = "js ''Ada''"])
    show "http_method (post_rsvp [ada_chars] (Json (JObj ada))) = ''POST''"
      by (simp add: post_rsvp_def)
    show "pathname (post_rsvp [ada_chars] (Json (JObj ada))) = Inr (js ''/rsvp'')"
      by (simp add: post_rsvp_def)
    show "js_length (concat (chunks (post_rsvp [ada_chars] (Json (JObj ada))))) \<le> 1000000"
      by (simp add: post_rsvp_def ada_chars_def js_length_literal)
    show "JSON_parse (body_text (post_rsvp [ada_chars] (Json (JObj ada)))) = Inr (JObj ada)"
      by (simp add: post_rsvp_def JSON_parse_def)
    show "map_of ada (js ''name'') = Some (JStr (js ''Ada''))"
      by (simp add: ada_def)
    show "trim (js ''Ada'') \<noteq> []"
      by (simp add: trim_Ada) (simp add: js_def)
    show "load_rsvps app fresh_fs = JArr []"
      by (rule load_rsvps_fresh)
    show "mkdir_error fresh_fs = None" and "write_error fresh_fs = None"
      by (simp_all add: fresh_fs_def)
  qed
  moreover have "js ''createdAt'' \<notin> fst ` set ada"
    by (simp add: ada_def js_def)
  moreover have "stored_fields ada = ada"
    by (simp add: stored_fields_def ada_def)
  ultimately show ?thesis by auto
qed

text \<open>
  A client that submits its own \<open>createdAt\<close> does not find it in the stored record:
  the server's value replaces it.
\<close>

theorem createdAt_overwritten_counterexample:
  "files (snd (handle_request app noon fresh_fs (post_rsvp [dated_chars] (Json (JObj dated)))))
     (RSVP_STORAGE app) =
     Inr (Json (JArr [JObj [(js ''createdAt'', JStr noon), (js ''name'', JStr (js ''Ada''))]])) \<and>
   (js ''createdAt'', JStr (js ''1999'')) \<in> set dated \<and>
   (js ''createdAt'', JStr (js ''1999'')) \<notin>
     set [(js ''createdAt'', JStr noon), (js ''name'', JStr (js ''Ada''))]"
proof -
  have valid: "valid_submission (JObj dated)"
    by (simp add: valid_submission_def dated_def trim_Ada) (simp add: js_def)
  have "on_end app noon fresh_fs (Json (JObj dated)) =
     (thank_you,
      fresh_fs\<lparr>files := (files fresh_fs)(RSVP_STORAGE app :=
         Inr (Json (JArr (map serialized [] @ [serialized (make_record (JObj dated) noon)]))))\<rparr>)"
    by (rule on_end_valid [OF _ valid load_rsvps_fresh]) (simp_all add: JSON_parse_def fresh_fs_def)
  then have "files (snd (handle_request app noon fresh_fs (post_rsvp [dated_chars] (Json (JObj dated)))))
     (RSVP_STORAGE app) = Inr (Json (JArr [serialized (make_record (JObj dated) noon)]))"
    by (simp add: handle_request_def submit_handler_within post_rsvp_def
        dated_chars_def js_length_literal)
  moreover have "serialized (make_record (JObj dated) noon) =
      JObj [(js ''createdAt'', JStr noon), (js ''name'', JStr (js ''Ada''))]"
    by (simp add: make_record_def dated_def)
  moreover have "JStr (js ''1999'') \<noteq> JStr noon"
    by (simp add: noon_def js_def)
  moreover have "js ''createdAt'' \<noteq> js ''name''"
    by (simp add: js_def)
  ultimately show ?thesis by (simp add: dated_def)
qed

text \<open>A submitted \<open>guests\<close> of \<open>1e400\<close> is stored as \<open>null\<close>.\<close>

lemma overflow_stored_as_null:
  "files (snd (handle_request app noon fresh_fs (post_rsvp [huge_chars] (Json (JObj huge)))))
     (RSVP_STORAGE app) =
     Inr (Json (JArr [JObj [(js ''name'', JStr (js ''Ada'')), (js ''guests'', JNull),
                            (js ''createdAt'', JStr noon)]]))"
proof -
  have valid: "valid_submission (JObj huge)"
    by (simp add: valid_submission_def huge_def trim_Ada) (simp add: js_def)
  have "on_end app noon fresh_fs (Json (JObj huge)) =
     (thank_you,
      fresh_fs\<lparr>files := (files fresh_fs)(RSVP_STORAGE app :=
         Inr (Json (JArr (map serialized [] @ [serialized (make_record (JObj huge) noon)]))))\<rparr>)"
    by (rule on_end_valid [OF _ valid load_rsvps_fresh]) (simp_all add: JSON_parse_def fresh_fs_def)
  then have "files (snd (handle_request app noon fresh_fs (post_rsvp [huge_chars] (Json (JObj huge)))))
     (RSVP_STORAGE app) = Inr (Json (JArr [serialized (make_record (JObj huge) noon)]))"
    by (simp add: handle_request_def submit_handler_within post_rsvp_def
        huge_chars_def js_length_literal)
  moreover have "js ''createdAt'' \<notin> fst ` set huge"
    by (simp add: huge_def js_def)
  then have "serialized (make_record (JObj huge) noon) =
      JObj [(js ''name'', JStr (js ''Ada'')), (js ''guests'', JNull), (js ''createdAt'', JStr noon)]"
    by (simp add: make_record_def set_property_fresh) (simp add: huge_def)
  ultimately show ?thesis by simp
qed

section \<open>Rejected submissions\<close>

text \<open>
  C2 (as amended).  A \<open>POST /rsvp\<close> whose body was received within the size limit and
  parses as JSON but is not an object with a non-blank string \<open>name\<close> is answered 400
  with \<open>{error: "Invalid submission: name is required"}\<close>, and the file system, the
  Record Store included, is left unchanged.
\<close>

theorem invalid_submission_rejected:
  assumes "http_method req = ''POST''" and "pathname req = Inr (js ''/rsvp'')"
    and "js_length (concat (chunks req)) \<le> 1000000"
    and "JSON_parse (body_text req) = Inr data"
    and "\<not> valid_submission data"
  shows "handle_request cfg now fs req = (Responded bad_request, fs) \<and>
         status bad_request = 400 \<and>
         res_body bad_request =
           Some (Json (JObj [(js ''error'', JStr (js ''Invalid submission: name is required''))]))"
  using assms
  by (simp add: handle_request_def submit_handler_within on_end_def
      invalid_submission_eq bad_request_def json_response_def JSON_stringify_def)

theorem invalid_submission_rejected_witness:
  "handle_request app noon fresh_fs (post_rsvp [blank_chars] (Json (JObj blank))) =
     (Responded bad_request, fresh_fs) \<and>
   status bad_request = 400 \<and>
   res_body bad_request =
     Some (Json (JObj [(js ''error'', JStr (js ''Invalid submission: name is required''))]))"
proof (rule invalid_submission_rejected)
  show "http_method (post_rsvp [blank_chars] (Json (JObj blank))) = ''POST''"
    by (simp add: post_rsvp_def)
  show "pathname (post_rsvp [blank_chars] (Json (JObj blank))) = Inr (js ''/rsvp'')"
    by (simp add: post_rsvp_def)
  show "js_length (concat (chunks (post_rsvp [blank_chars] (Json (JObj blank))))) \<le> 1000000"
    by (simp add: post_rsvp_def blank_chars_def js_length_literal)
  show "JSON_parse (body_text (post_rsvp [blank_chars] (Json (JObj blank)))) = Inr (JObj blank)"
    by (simp add: post_rsvp_def JSON_parse_def)
  show "\<not> valid_submission (JObj blank)"
    by (simp add: valid_submission_def blank_def trim_blank)
qed

lemma js_length_chunks:
  "js_length (concat (replicate m (replicate n c))) = m * (n * utf16_units c)"
  by (induction m) (simp_all add: js_length_def sum_list_replicate)

lemma byte_size_chunks:
  "byte_size (concat (replicate m (replicate n c))) = m * (n * utf8_bytes c)"
  by (induction m) (simp_all add: byte_size_def sum_list_replicate)

text \<open>
  The body \<open>{}\<close> followed by 1,010,000 spaces parses to the empty object, which has no
  \<open>name\<close>; it exceeds the size limit, the socket is destroyed, and no 400 is sent.
\<close>

theorem oversized_invalid_counterexample:
  "JSON_parse (body_text padded_post) = Inr (JObj []) \<and>
   \<not> valid_submission (JObj []) \<and>
   js_length (concat (chunks padded_post)) = 1010002 \<and>
   fst (handle_request app noon fresh_fs padded_post) = Destroyed"
proof -
  have size: "js_length (concat (chunks padded_post)) = 1010002"
    by (simp add: padded_post_def post_rsvp_def js_length_append js_length_literal
        js_length_chunks utf16_units_def)
  then have "js_length (concat (chunks padded_post)) > 1000000"
    by simp
  then have "fst (submit_handler app noon fresh_fs padded_post) = Destroyed"
    using submit_handler_over by blast
  then have "fst (handle_request app noon fresh_fs padded_post) = Destroyed"
    by (simp add: handle_request_def padded_post_def post_rsvp_def)
  moreover have "JSON_parse (body_text padded_post) = Inr (JObj [])"
    by (simp add: padded_post_def post_rsvp_def JSON_parse_def)
  moreover have "\<not> valid_submission (JObj [])"
    by (simp add: valid_submission_def)
  ultimately show ?thesis using size by blast
qed

section \<open>The size limit\<close>

lemma within_limit_answered:
  assumes "http_method req = ''POST''" and "pathname req = Inr (js ''/rsvp'')"
    and "js_length (concat (chunks req)) \<le> 1000000"
  shows "\<exists>res. fst (handle_request cfg now fs req) = Responded res"
  using assms by (simp add: handle_request_def submit_handler_within)

text \<open>
  C8 (as amended).  A \<open>POST /rsvp\<close> whose accumulated body exceeds 1,000,000 UTF-16
  code units (the \<open>length\<close> of the decoded string) has its socket destroyed: no
  response of any status is sent.
\<close>

theorem oversized_body_destroyed:
  assumes "http_method req = ''POST''" and "pathname req = Inr (js ''/rsvp'')"
    and "js_length (concat (chunks req)) > 1000000"
  shows "fst (handle_request cfg now fs req) = Destroyed \<and>
         (\<forall>res. fst (handle_request cfg now fs req) \<noteq> Responded res)"
  using assms submit_handler_over [OF assms(3), of cfg now fs]
  by (simp add: handle_request_def)

theorem oversized_body_destroyed_witness:
  "js_length (concat (chunks letters_post)) = 1010000 \<and>
   fst (handle_request app noon fresh_fs letters_post) = Destroyed"
proof -
  have size: "js_length (concat (chunks letters_post)) = 1010000"
    by (simp add: letters_post_def post_rsvp_def js_length_chunks utf16_units_def)
  then have "js_length (concat (chunks letters_post)) > 1000000"
    by simp
  from oversized_body_destroyed [OF _ _ this, of app noon fresh_fs] size show ?thesis
    by (simp add: letters_post_def post_rsvp_def)
qed

text \<open>
  A body of 400,000 euro signs is 1,200,000 bytes of UTF-8 but only 400,000 code units:
  the limit does not apply, the body is parsed, and a response (here 500, since the
  text is not JSON) is sent.
\<close>

theorem oversized_bytes_counterexample:
  "byte_size (concat (chunks euros_post)) = 1200000 \<and>
   js_length (concat (chunks euros_post)) = 400000 \<and>
   fst (handle_request app noon fresh_fs euros_post) = Responded internal_error \<and>
   status internal_error = 500"
proof -
  have units: "js_length (concat (chunks euros_post)) = 400000"
    by (simp add: euros_post_def post_rsvp_def js_length_chunks utf16_units_def)
  have bytes: "byte_size (concat (chunks euros_post)) = 1200000"
    by (simp add: euros_post_def post_rsvp_def byte_size_chunks utf8_bytes_def)
  have "http_method euros_post = ''POST''" and "pathname euros_post = Inr (js ''/rsvp'')"
    and "body_text euros_post = Raw (replicate 400000 8364)"
    by (simp_all add: euros_post_def post_rsvp_def)
  then have "fst (handle_request app noon fresh_fs euros_post) = Responded internal_error"
    using units
    by (simp add: handle_request_def submit_handler_within on_end_def JSON_parse_def)
  moreover have "status internal_error = 500"
    by (simp add: internal_error_def json_response_def)
  ultimately show ?thesis using units bytes by blast
qed

section \<open>A store that is not an array\<close>

text \<open>
  C5 at the store content \<open>{}\<close>.  The file parses, to a truthy value that is not an
  array; \<open>push\<close> throws, and the valid submission is answered 500 and not stored.
\<close>

theorem corrupt_store_fails_submission:
  "handle_request app noon (store_with app (Json (JObj [])))
     (post_rsvp [ada_chars] (Json (JObj ada))) =
     (Responded internal_error, store_with app (Json (JObj []))) \<and>
   status internal_error = 500 \<and> valid_submission (JObj ada)"
proof -
  have valid: "valid_submission (JObj ada)"
    by (simp add: valid_submission_def ada_def trim_Ada) (simp add: js_def)
  have load: "load_rsvps app (store_with app (Json (JObj []))) = JObj []"
    by (simp add: load_rsvps_def store_with_def fs_existsSync_def fs_readFileSync_def
        JSON_parse_def RSVP_STORAGE_no_nul)
  have "on_end app noon (store_with app (Json (JObj []))) (Json (JObj ada)) =
      (internal_error, store_with app (Json (JObj [])))"
    using valid by (simp add: on_end_def JSON_parse_def invalid_submission_eq load)
  then have "handle_request app noon (store_with app (Json (JObj [])))
     (post_rsvp [ada_chars] (Json (JObj ada))) =
     (Responded internal_error, store_with app (Json (JObj [])))"
    by (simp add: handle_request_def submit_handler_within post_rsvp_def
        ada_chars_def js_length_literal)
  moreover have "status internal_error = 500"
    by (simp add: internal_error_def json_response_def)
  ultimately show ?thesis using valid by blast
qed

section \<open>Loading the store\<close>

lemma load_rsvps_fallback:
  assumes "files fs (RSVP_STORAGE cfg) = Inl e \<or>
           (\<exists>s. files fs (RSVP_STORAGE cfg) = Inr (Raw s)) \<or>
           (\<exists>v. files fs (RSVP_STORAGE cfg) = Inr (Json v) \<and> \<not> truthy v)"
  shows "load_rsvps cfg fs = JArr []"
  using assms
  by (auto simp: load_rsvps_def fs_existsSync_def fs_readFileSync_def JSON_parse_def)

lemma load_rsvps_array:
  "files fs (RSVP_STORAGE cfg) = Inr (Json (JArr rs)) \<Longrightarrow> load_rsvps cfg fs = JArr rs"
  by (simp add: load_rsvps_def fs_existsSync_def fs_readFileSync_def JSON_parse_def
      RSVP_STORAGE_no_nul)

section \<open>Static files and the asset root\<close>

lemma static_guard:
  "\<not> prefix (PUBLIC_DIR cfg) (resolvedPath cfg p) \<Longrightarrow>
   static_handler cfg fs p = Responded (plain_response 403 ''Forbidden'')"
  by (simp add: static_handler_def)

lemma resolvedPath_sibling:
  "resolvedPath app (js ''/../public-old/secret.txt'') = js ''/srv/app/public-old/secret.txt''"
  by (simp add: resolvedPath_def PUBLIC_DIR_app path_join_def path_normalize_def
      path_resolve_def from_segments_def js_def)

text \<open>
  C4 at the decoded path \<open>/../public-old/secret.txt\<close> (sent as
  \<open>/..%2Fpublic-old/secret.txt\<close>) with the asset root \<open>/srv/app/public\<close>.  The
  resolved path \<open>/srv/app/public-old/secret.txt\<close> is outside the asset root, yet it
  starts with the root's characters, passes the guard, and the file is served with
  status 200.
\<close>

theorem sibling_directory_served:
  "fst (handle_request app noon sibling_fs (get_path (js ''/../public-old/secret.txt''))) =
     Responded \<lparr>status = 200, headers = [(''Content-Type'', ''application/octet-stream'')],
                res_body = Some (Raw (js ''secret''))\<rparr> \<and>
   resolvedPath app (js ''/../public-old/secret.txt'') = js ''/srv/app/public-old/secret.txt'' \<and>
   \<not> within_root (PUBLIC_DIR app) (resolvedPath app (js ''/../public-old/secret.txt''))"
proof -
  have outside: "\<not> within_root (PUBLIC_DIR app) (js ''/srv/app/public-old/secret.txt'')"
    by (simp add: within_root_def PUBLIC_DIR_app) (simp add: js_def)
  have guard: "prefix (PUBLIC_DIR app) (js ''/srv/app/public-old/secret.txt'')"
    by (simp add: PUBLIC_DIR_app) (simp add: js_def)
  have ctype: "getContentType (js ''/srv/app/public-old/secret.txt'') = ''application/octet-stream''"
    by (simp add: getContentType_def path_extname_def to_lower_def js_def)
  have read: "fs_readFile sibling_fs (js ''/srv/app/public-old/secret.txt'') =
      Inr (Inr (Raw (js ''secret'')))"
    by (simp add: fs_readFile_def sibling_fs_def) (simp add: js_def)
  have "static_handler app sibling_fs (js ''/../public-old/secret.txt'') =
      Responded \<lparr>status = 200, headers = [(''Content-Type'', ''application/octet-stream'')],
       res_body = Some (Raw (js ''secret''))\<rparr>"
    using guard by (simp add: static_handler_def resolvedPath_sibling ctype read)
  moreover have "js ''/../public-old/secret.txt'' \<noteq> js ''/rsvps''"
    by (simp add: js_def)
  ultimately have "fst (handle_request app noon sibling_fs (get_path (js ''/../public-old/secret.txt''))) =
     Responded \<lparr>status = 200, headers = [(''Content-Type'', ''application/octet-stream'')],
                res_body = Some (Raw (js ''secret''))\<rparr>"
    by (simp add: handle_request_def get_path_def)
  with outside resolvedPath_sibling show ?thesis by simp
qed


lemma list_handler_responds: "\<exists>res. list_handler cfg fs = Responded res"
  by (simp add: list_handler_def fs_readFile_def RSVP_STORAGE_no_nul split: sum.splits)






section \<open>Routing\<close>




section \<open>The Record Store\<close>

lemma on_end_writes:
  "snd (on_end cfg now fs t) = fs \<or>
   (\<exists>rs. snd (on_end cfg now fs t) =
      fs\<lparr>files := (files fs)(RSVP_STORAGE cfg := Inr (JSON_stringify (JArr rs)))\<rparr>)"
proof (cases "load_rsvps cfg fs")
  case (JArr xs)
  then show ?thesis
    by (auto simp: on_end_def fs_mkdirSync_def fs_writeFileSync_def
        split: sum.splits option.splits if_splits)
qed (auto simp: on_end_def split: sum.splits)

lemma handle_request_writes:
  "snd (handle_request cfg now fs req) = fs \<or>
   (\<exists>rs. snd (handle_request cfg now fs req) =
      fs\<lparr>files := (files fs)(RSVP_STORAGE cfg := Inr (JSON_stringify (JArr rs)))\<rparr>)"
  using on_end_writes [of cfg now fs "body_text req"]
  by (auto simp: handle_request_def submit_handler_def case_prod_beta
      split: sum.splits reception.splits)

lemma store_state_load: "store_state cfg fs rs \<Longrightarrow> load_rsvps cfg fs = JArr rs"
  by (auto simp: store_state_def load_rsvps_def fs_existsSync_def fs_readFileSync_def
      JSON_parse_def RSVP_STORAGE_no_nul)

lemma store_state_list:
  "store_state cfg fs rs \<Longrightarrow>
   list_handler cfg fs =
     Responded \<lparr>status = 200, headers = json_headers, res_body = Some (Json (JArr rs))\<rparr>"
  by (auto simp: store_state_def list_handler_def fs_readFile_def content_empty_def
      RSVP_STORAGE_no_nul)

lemma valid_post_handled:
  assumes "valid_post req" and "store_state cfg fs rs"
  shows "fst (handle_request cfg now fs req) = Responded thank_you \<and>
         store_state cfg (snd (handle_request cfg now fs req)) (rs @ [record_of (now, req)])"
proof -
  from assms(1) obtain data where body: "body_text req = Json data" and valid: "valid_submission data"
    by (auto simp: valid_post_def split: content.splits)
  have flags: "mkdir_error fs = None" "write_error fs = None"
    and clean: "map serialized rs = rs"
    using assms(2) by (simp_all add: store_state_def)
  have "on_end cfg now fs (body_text req) =
     (thank_you,
      fs\<lparr>files := (files fs)(RSVP_STORAGE cfg :=
        Inr (Json (JArr (map serialized rs @ [serialized (make_record data now)]))))\<rparr>)"
    by (rule on_end_valid [OF _ valid store_state_load [OF assms(2)] flags])
      (simp add: body JSON_parse_def)
  then have "handle_request cfg now fs req =
     (Responded thank_you,
      fs\<lparr>files := (files fs)(RSVP_STORAGE cfg :=
        Inr (Json (JArr (rs @ [serialized (make_record data now)]))))\<rparr>)"
    using assms(1) clean by (simp add: handle_request_def submit_handler_within valid_post_def)
  then show ?thesis
    using flags clean by (simp add: store_state_def record_of_def body serialized_idem)
qed

lemma handle_all_valid:
  assumes "\<forall>sub \<in> set subs. valid_post (snd sub)" and "store_state cfg fs rs"
  shows "fst (handle_all cfg fs subs) = map (\<lambda>sub. Responded thank_you) subs \<and>
         store_state cfg (snd (handle_all cfg fs subs)) (rs @ map record_of subs)"
  using assms
proof (induction subs arbitrary: fs rs)
  case Nil
  then show ?case by simp
next
  case (Cons sub subs)
  obtain now req where sub: "sub = (now, req)" by (cases sub)
  have step: "fst (handle_request cfg now fs req) = Responded thank_you \<and>
         store_state cfg (snd (handle_request cfg now fs req)) (rs @ [record_of (now, req)])"
    using Cons.prems by (intro valid_post_handled) (simp_all add: sub)
  have rest: "fst (handle_all cfg (snd (handle_request cfg now fs req)) subs) =
           map (\<lambda>sub. Responded thank_you) subs \<and>
         store_state cfg (snd (handle_all cfg (snd (handle_request cfg now fs req)) subs))
           ((rs @ [record_of (now, req)]) @ map record_of subs)"
    using Cons.prems step by (intro Cons.IH) simp_all
  from step rest show ?case
    by (simp add: sub case_prod_beta)
qed

lemma trim_Bob: "trim (js ''Bob'') = js ''Bob''"
  by (simp add: trim_def js_def is_white_space_def)

lemma valid_ada: "valid_submission (JObj ada)"
  by (simp add: valid_submission_def ada_def trim_Ada) (simp add: js_def)

lemma valid_bob: "valid_submission (JObj bob)"
  by (simp add: valid_submission_def bob_def trim_Bob) (simp add: js_def)

lemma valid_two_posts: "\<forall>sub \<in> set two_posts. valid_post (snd sub)"
  by (simp add: two_posts_def valid_post_def post_rsvp_def valid_ada valid_bob
      ada_chars_def bob_chars_def js_length_literal)

lemma records_two_posts:
  "map record_of two_posts =
     [JObj (ada @ [(js ''createdAt'', JStr noon)]), JObj (bob @ [(js ''createdAt'', JStr evening)])]"
proof -
  have "js ''createdAt'' \<notin> fst ` set ada" and "js ''createdAt'' \<notin> fst ` set bob"
    by (simp_all add: ada_def bob_def js_def)
  then have "make_record (JObj ada) noon = JObj (ada @ [(js ''createdAt'', JStr noon)])"
    and "make_record (JObj bob) evening = JObj (bob @ [(js ''createdAt'', JStr evening)])"
    by (simp_all add: make_record_def set_property_fresh)
  moreover have "serialized (JObj (ada @ [(js ''createdAt'', JStr noon)])) =
      JObj (ada @ [(js ''createdAt'', JStr noon)])"
    and "serialized (JObj (bob @ [(js ''createdAt'', JStr evening)])) =
      JObj (bob @ [(js ''createdAt'', JStr evening)])"
    by (simp_all add: ada_def bob_def)
  ultimately show ?thesis
    by (simp add: two_posts_def record_of_def post_rsvp_def)
qed

lemma handle_all_valid_store:
  "valid_store cfg fs \<Longrightarrow> valid_store cfg (snd (handle_all cfg fs reqs))"
proof (induction reqs arbitrary: fs)
  case Nil
  then show ?case by simp
next
  case (Cons sub reqs)
  obtain now req where sub: "sub = (now, req)" by (cases sub)
  have "valid_store cfg (snd (handle_request cfg now fs req))"
    using handle_request_writes [of cfg now fs req] Cons.prems
    by (auto simp: valid_store_def JSON_stringify_def JSON_parse_def)
  then have "valid_store cfg (snd (handle_all cfg (snd (handle_request cfg now fs req)) reqs))"
    by (rule Cons.IH)
  then show ?case by (simp add: sub case_prod_beta)
qed

text \<open>
  C6.  Whatever the request, the file system afterwards is the one before, or the one
  before with the store file replaced by the serialization of a JSON array; no other
  file and no other content is written.  Hence a store that is absent or holds a JSON
  array stays so through every sequence of requests.
\<close>

theorem store_holds_json_array:
  "(snd (handle_request cfg now fs req) = fs \<or>
    (\<exists>rs. snd (handle_request cfg now fs req) =
       fs\<lparr>files := (files fs)(RSVP_STORAGE cfg := Inr (JSON_stringify (JArr rs)))\<rparr>)) \<and>
   (valid_store cfg fs \<longrightarrow> valid_store cfg (snd (handle_all cfg fs reqs)))"
  using handle_request_writes [of cfg now fs req] handle_all_valid_store [of cfg fs reqs]
  by blast

theorem store_holds_json_array_witness:
  "valid_store app fresh_fs \<and>
   valid_store app (snd (handle_all app fresh_fs two_posts)) \<and>
   files (snd (handle_all app fresh_fs two_posts)) (RSVP_STORAGE app) \<noteq> Inl ENOENT"
proof -
  have start: "valid_store app fresh_fs"
    by (simp add: valid_store_def fresh_fs_def)
  have "store_state app fresh_fs []"
    by (simp add: store_state_def fresh_fs_def)
  from handle_all_valid [OF valid_two_posts this]
  have "files (snd (handle_all app fresh_fs two_posts)) (RSVP_STORAGE app) \<noteq> Inl ENOENT"
    by (auto simp: store_state_def two_posts_def)
  with start store_holds_json_array [of app noon fresh_fs "snd (hd two_posts)" two_posts]
  show ?thesis by blast
qed

text \<open>
  C7.  On a deployment with no store file, \<open>GET /rsvps\<close> is answered 200 with \<open>[]\<close>.
  After valid submissions handled one after the other, on a file system that accepts
  the writes, each was answered 200 and \<open>GET /rsvps\<close> is answered 200 with the JSON
  array of their records, one per submission, in submission order.
\<close>

theorem sequential_submissions_listed:
  assumes "files fs (RSVP_STORAGE cfg) = Inl ENOENT"
    and "mkdir_error fs = None" and "write_error fs = None"
    and "\<forall>sub \<in> set subs. valid_post (snd sub)"
    and "http_method g = ''GET''" and "pathname g = Inr (js ''/rsvps'')"
  shows "fst (handle_request cfg t fs g) =
           Responded \<lparr>status = 200, headers = json_headers, res_body = Some (Json (JArr []))\<rparr> \<and>
         fst (handle_all cfg fs subs) = map (\<lambda>sub. Responded thank_you) subs \<and>
         fst (handle_request cfg t (snd (handle_all cfg fs subs)) g) =
           Responded \<lparr>status = 200, headers = json_headers,
                      res_body = Some (Json (JArr (map record_of subs)))\<rparr> \<and>
         length (map record_of subs) = length subs"
proof -
  have start: "store_state cfg fs []"
    using assms(1-3) by (simp add: store_state_def)
  have get: "fst (handle_request cfg t fs' g) = list_handler cfg fs'" for fs'
    using assms(5,6) by (simp add: handle_request_def)
  from handle_all_valid [OF assms(4) start]
  have run: "fst (handle_all cfg fs subs) = map (\<lambda>sub. Responded thank_you) subs"
    and final: "store_state cfg (snd (handle_all cfg fs subs)) (map record_of subs)"
    by simp_all
  show ?thesis
    using run by (simp add: get store_state_list [OF start] store_state_list [OF final])
qed

theorem sequential_submissions_listed_witness:
  "fst (handle_request app evening fresh_fs get_rsvps) =
     Responded \<lparr>status = 200, headers = json_headers, res_body = Some (Json (JArr []))\<rparr> \<and>
   fst (handle_request app evening (snd (handle_all app fresh_fs two_posts)) get_rsvps) =
     Responded \<lparr>status = 200, headers = json_headers,
       res_body = Some (Json (JArr
         [JObj (ada @ [(js ''createdAt'', JStr noon)]),
          JObj (bob @ [(js ''createdAt'', JStr evening)])]))\<rparr>"
proof -
  have "files fresh_fs (RSVP_STORAGE app) = Inl ENOENT"
    and "mkdir_error fresh_fs = None" and "write_error fresh_fs = None"
    by (simp_all add: fresh_fs_def)
  moreover have "http_method get_rsvps = ''GET''" and "pathname get_rsvps = Inr (js ''/rsvps'')"
    by (simp_all add: get_rsvps_def get_path_def)
  ultimately show ?thesis
    using sequential_submissions_listed [of fresh_fs app two_posts get_rsvps evening]
      valid_two_posts
    by (simp add: records_two_posts)
qed

end
